theory Spec2Isabelle
  imports Main
begin

unbundle bit_operations_syntax

section \<open>The LS-8 emulator of \<^verbatim>\<open>ls8/cpu.py\<close>\<close>

text \<open>
  Python integers are unbounded, so every value of the emulator (memory cells, registers,
  the program counter, instruction bytes) is an \<^typ>\<open>int\<close>. On \<^typ>\<open>int\<close> the operations
  \<open>AND\<close>, \<open>OR\<close>, \<open>XOR\<close>, \<open>NOT\<close>, \<^const>\<open>push_bit\<close> and \<^const>\<open>drop_bit\<close> are the
  two's-complement ones of Python's \<^verbatim>\<open>&\<close>, \<^verbatim>\<open>|\<close>, \<^verbatim>\<open>^\<close>, \<^verbatim>\<open>~\<close>, \<^verbatim>\<open><<\<close> and \<^verbatim>\<open>>>\<close>, and
  \<open>div\<close> and \<open>mod\<close> round towards minus infinity as \<^verbatim>\<open>//\<close> and \<^verbatim>\<open>%\<close> do.
\<close>

subsection \<open>Instruction set and bit masks\<close>

text \<open>The opcodes \<^verbatim>\<open>AND\<close>, \<^verbatim>\<open>NOT\<close>, \<^verbatim>\<open>OR\<close>, \<^verbatim>\<open>XOR\<close> and \<^verbatim>\<open>INT\<close> carry the suffix \<open>_op\<close>.\<close>

definition ADD :: int where "ADD = 160"
definition AND_op :: int where "AND_op = 168"
definition CALL :: int where "CALL = 80"
definition CMP :: int where "CMP = 167"
definition DEC :: int where "DEC = 102"
definition DIV :: int where "DIV = 163"
definition HLT :: int where "HLT = 1"
definition INC :: int where "INC = 101"
definition INT_op :: int where "INT_op = 82"
definition IRET :: int where "IRET = 19"
definition JEQ :: int where "JEQ = 85"
definition JGE :: int where "JGE = 90"
definition JGT :: int where "JGT = 87"
definition JLE :: int where "JLE = 89"
definition JLT :: int where "JLT = 88"
definition JMP :: int where "JMP = 84"
definition JNE :: int where "JNE = 86"
definition LD :: int where "LD = 131"
definition LDI :: int where "LDI = 130"
definition MOD :: int where "MOD = 164"
definition MUL :: int where "MUL = 162"
definition NOP :: int where "NOP = 0"
definition NOT_op :: int where "NOT_op = 105"
definition OR_op :: int where "OR_op = 170"
definition POP :: int where "POP = 70"
definition PRA :: int where "PRA = 72"
definition PRN :: int where "PRN = 71"
definition PUSH :: int where "PUSH = 69"
definition RET :: int where "RET = 17"
definition SHL :: int where "SHL = 172"
definition SHR :: int where "SHR = 173"
definition ST :: int where "ST = 132"
definition SUB :: int where "SUB = 161"
definition XOR_op :: int where "XOR_op = 171"

definition OPERANDS_OFFSET :: nat where "OPERANDS_OFFSET = 6"
definition ALU_OFFSET :: nat where "ALU_OFFSET = 5"
definition PC_OFFSET :: nat where "PC_OFFSET = 4"

definition OPERANDS_MASK :: int where "OPERANDS_MASK = 192"
definition ALU_MASK :: int where "ALU_MASK = 32"
definition PC_MASK :: int where "PC_MASK = 16"
definition ID_MASK :: int where "ID_MASK = 15"

subsection \<open>The CPU object, exceptions and output\<close>

text \<open>
  A Python exception that leaves a method is a value; it comes with the state of the object
  at the moment of the raise, since the methods update the object in place and nothing is
  rolled back. \<open>KeyError\<close> carries the key that was looked up, \<open>ValueError\<close> and
  \<open>Exception\<close> their message.
\<close>

datatype exn =
    SystemExit
  | KeyError int
  | IndexError
  | TypeError
  | ValueError string
  | ZeroDivisionError
  | Exception string

text \<open>What \<^verbatim>\<open>print\<close> wrote: an integer (by \<^verbatim>\<open>prn\<close>) or a text (by \<^verbatim>\<open>run\<close>), one per line.\<close>

datatype printed = OutInt int | OutStr string

record cpu =
  ram :: "int list"
  reg :: "int list"
  pc :: int
  running :: bool
  stdout :: "printed list"

type_synonym 'a raises = "(exn \<times> cpu) + 'a"

text \<open>
  Python's \<^verbatim>\<open>xs[i]\<close> on a list of length \<open>n\<close>: the indices \<open>0 .. n - 1\<close> and, counted from
  the end, \<open>- n .. - 1\<close> are valid; every other index raises \<^verbatim>\<open>IndexError\<close>.
\<close>

definition py_index :: "nat \<Rightarrow> int \<Rightarrow> nat option" where
  "py_index n i =
     (if 0 \<le> i \<and> i < int n then Some (nat i)
      else if - int n \<le> i \<and> i < 0 then Some (nat (int n + i))
      else None)"

definition reg_get :: "int \<Rightarrow> cpu \<Rightarrow> exn + int" where
  "reg_get i s = (case py_index (length (reg s)) i of
      None \<Rightarrow> Inl IndexError
    | Some k \<Rightarrow> Inr (reg s ! k))"

definition reg_set :: "int \<Rightarrow> int \<Rightarrow> cpu \<Rightarrow> exn + cpu" where
  "reg_set i v s = (case py_index (length (reg s)) i of
      None \<Rightarrow> Inl IndexError
    | Some k \<Rightarrow> Inr (s\<lparr>reg := (reg s)[k := v]\<rparr>))"

text \<open>The second operand of \<^verbatim>\<open>alu\<close> defaults to \<^verbatim>\<open>None\<close>, and \<^verbatim>\<open>self.reg[None]\<close> is a
  \<^verbatim>\<open>TypeError\<close>.\<close>

definition reg_get_opt :: "int option \<Rightarrow> cpu \<Rightarrow> exn + int" where
  "reg_get_opt b s = (case b of None \<Rightarrow> Inl TypeError | Some i \<Rightarrow> reg_get i s)"

text \<open>
  The property \<^verbatim>\<open>stack_pointer\<close>: the getter reads register 7, the setter masks the value
  to 8 bits and writes register 7. The register list has 8 entries from construction on
  and is never resized.
\<close>

definition stack_pointer :: "cpu \<Rightarrow> int" where
  "stack_pointer s = reg s ! 7"

definition set_stack_pointer :: "int \<Rightarrow> cpu \<Rightarrow> cpu" where
  "set_stack_pointer v s = s\<lparr>reg := (reg s)[7 := v AND 255]\<rparr>"

definition init :: cpu where
  "init = set_stack_pointer 247
     \<lparr>ram = replicate 256 0, reg = replicate 8 0, pc = 0, running = True, stdout = []\<rparr>"

definition ram_read :: "int \<Rightarrow> cpu \<Rightarrow> exn + int" where
  "ram_read address s = (case py_index (length (ram s)) address of
      None \<Rightarrow> Inl IndexError
    | Some k \<Rightarrow> Inr (ram s ! k))"

definition ram_write :: "int \<Rightarrow> int \<Rightarrow> cpu \<Rightarrow> exn + cpu" where
  "ram_write address v s = (case py_index (length (ram s)) address of
      None \<Rightarrow> Inl IndexError
    | Some k \<Rightarrow> Inr (s\<lparr>ram := (ram s)[k := v]\<rparr>))"

subsection \<open>The loader\<close>

text \<open>
  \<^verbatim>\<open>load\<close> reads the file line by line. The model takes the lines of the file, each a
  string of characters with code points below 256. \<open>int_base2\<close> is Python's built-in
  \<^verbatim>\<open>int(text, 2)\<close> on such a string, \<open>None\<close> where it raises \<^verbatim>\<open>ValueError\<close>: white space
  around the number, an optional sign, an optional prefix \<^verbatim>\<open>0b\<close> or \<^verbatim>\<open>0B\<close>, then binary
  digits, single underscores allowed between digits and after the prefix.
\<close>

definition is_space :: "char \<Rightarrow> bool" where
  "is_space c = ((of_char c :: nat) \<in> {9, 10, 11, 12, 13, 32, 133, 160})"

fun scan_digits :: "bool \<Rightarrow> int \<Rightarrow> string \<Rightarrow> (int \<times> string) option" where
  "scan_digits underscore acc [] = (if underscore then None else Some (acc, []))"
| "scan_digits underscore acc (c # cs) =
     (if c = CHR ''0'' then scan_digits False (2 * acc) cs
      else if c = CHR ''1'' then scan_digits False (2 * acc + 1) cs
      else if c = CHR ''_'' then (if underscore then None else scan_digits True acc cs)
      else if underscore then None
      else Some (acc, c # cs))"

definition strip_sign :: "string \<Rightarrow> bool \<times> string" where
  "strip_sign t = (case t of
      [] \<Rightarrow> (False, [])
    | c # cs \<Rightarrow> if c = CHR ''+'' then (False, cs)
                else if c = CHR ''-'' then (True, cs)
                else (False, t))"

definition strip_prefix :: "string \<Rightarrow> string" where
  "strip_prefix t = (case t of
      c # d # cs \<Rightarrow>
        if c = CHR ''0'' \<and> (d = CHR ''b'' \<or> d = CHR ''B'')
        then (case cs of [] \<Rightarrow> cs | e # es \<Rightarrow> if e = CHR ''_'' then es else cs)
        else t
    | _ \<Rightarrow> t)"

definition int_base2 :: "string \<Rightarrow> int option" where
  "int_base2 t =
     (let (negative, t1) = strip_sign (dropWhile is_space t);
          t2 = strip_prefix t1
      in case t2 of
           [] \<Rightarrow> None
         | c # _ \<Rightarrow>
             if c \<noteq> CHR ''0'' \<and> c \<noteq> CHR ''1'' then None
             else (case scan_digits False 0 t2 of
                 None \<Rightarrow> None
               | Some (v, rest) \<Rightarrow>
                   if dropWhile is_space rest = [] then Some (if negative then - v else v)
                   else None))"

text \<open>\<^verbatim>\<open>line.split('#', 1)[0]\<close>: the part of the line before the first \<^verbatim>\<open>#\<close>.\<close>

definition strip_comment :: "string \<Rightarrow> string" where
  "strip_comment line = takeWhile (\<lambda>c. c \<noteq> CHR ''#'') line"

text \<open>
  The loop of \<^verbatim>\<open>load\<close> with its counter \<^verbatim>\<open>address\<close>. A \<^verbatim>\<open>ValueError\<close> of \<^verbatim>\<open>int\<close> is caught
  and the line skipped; the \<^verbatim>\<open>IndexError\<close> of the store \<^verbatim>\<open>self.ram[address] = instruction\<close>
  is not caught.
\<close>

fun load_lines :: "string list \<Rightarrow> int \<Rightarrow> cpu \<Rightarrow> cpu raises" where
  "load_lines [] address s = Inr s"
| "load_lines (line # rest) address s =
     (case int_base2 (strip_comment line) of
        None \<Rightarrow> load_lines rest address s
      | Some instruction \<Rightarrow>
          (case ram_write address instruction s of
             Inl e \<Rightarrow> Inl (e, s)
           | Inr s' \<Rightarrow> load_lines rest (address + 1) s'))"

definition load :: "string list \<Rightarrow> cpu \<Rightarrow> cpu raises" where
  "load program s = load_lines program 0 s"

subsection \<open>The arithmetic-logic unit\<close>

text \<open>
  \<^verbatim>\<open>self.reg[a] = self.reg[a] <op> self.reg[b]\<close>: both registers are read, left to right,
  the operation is applied (it may raise), and the result is stored in register \<open>a\<close>.
\<close>

definition binop :: "(int \<Rightarrow> int \<Rightarrow> exn + int) \<Rightarrow> int \<Rightarrow> int option \<Rightarrow> cpu \<Rightarrow> cpu raises" where
  "binop f a b s =
     (case reg_get a s of
        Inl e \<Rightarrow> Inl (e, s)
      | Inr x \<Rightarrow>
          (case reg_get_opt b s of
             Inl e \<Rightarrow> Inl (e, s)
           | Inr y \<Rightarrow>
               (case f x y of
                  Inl e \<Rightarrow> Inl (e, s)
                | Inr v \<Rightarrow>
                    (case reg_set a v s of Inl e \<Rightarrow> Inl (e, s) | Inr s' \<Rightarrow> Inr s'))))"

text \<open>\<^verbatim>\<open>self.reg[a] <op>= ...\<close> and \<^verbatim>\<open>self.reg[a] = ~self.reg[a]\<close>: read, apply, store.\<close>

definition unop :: "(int \<Rightarrow> int) \<Rightarrow> int \<Rightarrow> cpu \<Rightarrow> cpu raises" where
  "unop f a s =
     (case reg_get a s of
        Inl e \<Rightarrow> Inl (e, s)
      | Inr x \<Rightarrow> (case reg_set a (f x) s of Inl e \<Rightarrow> Inl (e, s) | Inr s' \<Rightarrow> Inr s'))"

text \<open>Python's \<^verbatim>\<open>%\<close>, \<^verbatim>\<open><<\<close> and \<^verbatim>\<open>>>\<close> on integers, with the exceptions they raise.\<close>

definition py_mod :: "int \<Rightarrow> int \<Rightarrow> exn + int" where
  "py_mod x y = (if y = 0 then Inl ZeroDivisionError else Inr (x mod y))"

definition py_shl :: "int \<Rightarrow> int \<Rightarrow> exn + int" where
  "py_shl x y = (if y < 0 then Inl (ValueError ''negative shift count'')
     else Inr (push_bit (nat y) x))"

definition py_shr :: "int \<Rightarrow> int \<Rightarrow> exn + int" where
  "py_shr x y = (if y < 0 then Inl (ValueError ''negative shift count'')
     else Inr (drop_bit (nat y) x))"

text \<open>
  The \<^verbatim>\<open>if\<close>/\<^verbatim>\<open>elif\<close> chain of \<^verbatim>\<open>alu\<close>, in the order of the source. \<^verbatim>\<open>DIV\<close> tests the
  divisor before it reads the destination register.
\<close>

definition alu_op :: "int \<Rightarrow> int \<Rightarrow> int option \<Rightarrow> cpu \<Rightarrow> cpu raises" where
  "alu_op op a b s =
     (if op = ADD then binop (\<lambda>x y. Inr (x + y)) a b s
      else if op = AND_op then binop (\<lambda>x y. Inr (x AND y)) a b s
      else if op = CMP then Inr s
      else if op = DEC then unop (\<lambda>x. x - 1) a s
      else if op = DIV then
        (case reg_get_opt b s of
           Inl e \<Rightarrow> Inl (e, s)
         | Inr y \<Rightarrow>
             if y = 0 then Inl (ValueError ''Cannot divide by 0'', s)
             else binop (\<lambda>x y. Inr (x div y)) a b s)
      else if op = INC then unop (\<lambda>x. x + 1) a s
      else if op = MOD then binop py_mod a b s
      else if op = MUL then binop (\<lambda>x y. Inr (x * y)) a b s
      else if op = NOT_op then unop (\<lambda>x. NOT x) a s
      else if op = OR_op then binop (\<lambda>x y. Inr (x OR y)) a b s
      else if op = SHL then binop py_shl a b s
      else if op = SHR then binop py_shr a b s
      else if op = SUB then binop (\<lambda>x y. Inr (x - y)) a b s
      else if op = XOR_op then binop (\<lambda>x y. Inr (x XOR y)) a b s
      else Inl (Exception ''Unsupported ALU Operation'', s))"

text \<open>After the chain: \<^verbatim>\<open>self.reg[a] &= 0xff\<close>.\<close>

definition alu :: "int \<Rightarrow> int \<Rightarrow> int option \<Rightarrow> cpu \<Rightarrow> cpu raises" where
  "alu op a b s =
     (case alu_op op a b s of
        Inl es \<Rightarrow> Inl es
      | Inr s1 \<Rightarrow> unop (\<lambda>x. x AND 255) a s1)"

subsection \<open>The handlers of the dispatch table\<close>

text \<open>\<^verbatim>\<open>sys.exit()\<close> raises \<^verbatim>\<open>SystemExit\<close>.\<close>

definition hlt :: "cpu \<Rightarrow> cpu raises" where
  "hlt s = Inl (SystemExit, s)"

definition call :: "int \<Rightarrow> cpu \<Rightarrow> cpu raises" where
  "call a s =
     (let s1 = set_stack_pointer (stack_pointer s - 1) s in
      case ram_write (stack_pointer s1) (pc s1 + 2) s1 of
        Inl e \<Rightarrow> Inl (e, s1)
      | Inr s2 \<Rightarrow>
          (case reg_get a s2 of
             Inl e \<Rightarrow> Inl (e, s2)
           | Inr v \<Rightarrow> Inr (s2\<lparr>pc := v\<rparr>)))"

definition ldi :: "int \<Rightarrow> int \<Rightarrow> cpu \<Rightarrow> cpu raises" where
  "ldi a v s = (case reg_set a v s of Inl e \<Rightarrow> Inl (e, s) | Inr s' \<Rightarrow> Inr s')"

definition ret :: "cpu \<Rightarrow> cpu raises" where
  "ret s =
     (case ram_read (stack_pointer s) s of
        Inl e \<Rightarrow> Inl (e, s)
      | Inr v \<Rightarrow>
          (let s1 = s\<lparr>pc := v\<rparr> in Inr (set_stack_pointer (stack_pointer s1 + 1) s1)))"

definition pop :: "int \<Rightarrow> cpu \<Rightarrow> cpu raises" where
  "pop a s =
     (case ram_read (stack_pointer s) s of
        Inl e \<Rightarrow> Inl (e, s)
      | Inr v \<Rightarrow>
          (case reg_set a v s of
             Inl e \<Rightarrow> Inl (e, s)
           | Inr s1 \<Rightarrow> Inr (set_stack_pointer (stack_pointer s1 + 1) s1)))"

definition prn :: "int \<Rightarrow> cpu \<Rightarrow> cpu raises" where
  "prn a s =
     (case reg_get a s of
        Inl e \<Rightarrow> Inl (e, s)
      | Inr v \<Rightarrow> Inr (s\<lparr>stdout := stdout s @ [OutInt v]\<rparr>))"

definition push :: "int \<Rightarrow> cpu \<Rightarrow> cpu raises" where
  "push a s =
     (let s1 = set_stack_pointer (stack_pointer s - 1) s in
      case reg_get a s1 of
        Inl e \<Rightarrow> Inl (e, s1)
      | Inr v \<Rightarrow>
          (case ram_write (stack_pointer s1) v s1 of
             Inl e \<Rightarrow> Inl (e, s1)
           | Inr s2 \<Rightarrow> Inr s2))"

text \<open>
  \<^verbatim>\<open>configure_dispatch_table\<close>: the dictionary from opcode to bound method, built once.
  Calling a method with a number of arguments other than its own is a \<^verbatim>\<open>TypeError\<close>.
\<close>

datatype handler = Call | Hlt | Ldi | Prn | Pop | Push | Ret

definition dispatch_table :: "int \<rightharpoonup> handler" where
  "dispatch_table =
     [CALL \<mapsto> Call, HLT \<mapsto> Hlt, LDI \<mapsto> Ldi, PRN \<mapsto> Prn, POP \<mapsto> Pop, PUSH \<mapsto> Push,
      RET \<mapsto> Ret]"

fun invoke :: "handler \<Rightarrow> int list \<Rightarrow> cpu \<Rightarrow> cpu raises" where
  "invoke Call [a] s = call a s"
| "invoke Hlt [] s = hlt s"
| "invoke Ldi [a, v] s = ldi a v s"
| "invoke Prn [a] s = prn a s"
| "invoke Pop [a] s = pop a s"
| "invoke Push [a] s = push a s"
| "invoke Ret [] s = ret s"
| "invoke h args s = Inl (TypeError, s)"

subsection \<open>The fetch-decode-execute loop\<close>

definition num_operands :: "int \<Rightarrow> int" where
  "num_operands instruction_reg = drop_bit OPERANDS_OFFSET instruction_reg"

definition is_alu_operation :: "int \<Rightarrow> int" where
  "is_alu_operation instruction_reg = drop_bit ALU_OFFSET (instruction_reg AND ALU_MASK)"

definition sets_pc :: "int \<Rightarrow> int" where
  "sets_pc instruction_reg = drop_bit PC_OFFSET (instruction_reg AND PC_MASK)"

text \<open>The operand bytes \<^verbatim>\<open>self.ram_read(self.pc + 1)\<close>, ..., read left to right.\<close>

fun operands :: "nat \<Rightarrow> int \<Rightarrow> cpu \<Rightarrow> exn + int list" where
  "operands 0 address s = Inr []"
| "operands (Suc n) address s =
     (case ram_read address s of
        Inl e \<Rightarrow> Inl e
      | Inr v \<Rightarrow> (case operands n (address + 1) s of Inl e \<Rightarrow> Inl e | Inr vs \<Rightarrow> Inr (v # vs)))"

text \<open>
  A branch \<^verbatim>\<open>self.dispatch_table[instruction_reg](...)\<close> followed by \<^verbatim>\<open>self.pc += n + 1\<close>:
  the handler is looked up first (\<^verbatim>\<open>KeyError\<close>), then the \<open>n\<close> operands are read, then the
  handler runs, then the program counter moves.
\<close>

definition dispatch :: "int \<Rightarrow> nat \<Rightarrow> cpu \<Rightarrow> cpu raises" where
  "dispatch instruction_reg n s =
     (case dispatch_table instruction_reg of
        None \<Rightarrow> Inl (KeyError instruction_reg, s)
      | Some h \<Rightarrow>
          (case operands n (pc s + 1) s of
             Inl e \<Rightarrow> Inl (e, s)
           | Inr args \<Rightarrow>
               (case invoke h args s of
                  Inl es \<Rightarrow> Inl es
                | Inr s' \<Rightarrow> Inr (s'\<lparr>pc := pc s' + int n + 1\<rparr>))))"

definition bad_instruction :: "cpu \<Rightarrow> cpu" where
  "bad_instruction s = s\<lparr>stdout := stdout s @ [OutStr ''Bad instruction'']\<rparr>"

text \<open>The first statement of the loop body: the \<^verbatim>\<open>if\<close>/\<^verbatim>\<open>elif\<close> chain on the decoded byte.\<close>

definition execute :: "int \<Rightarrow> cpu \<Rightarrow> cpu raises" where
  "execute instruction_reg s =
     (if is_alu_operation instruction_reg \<noteq> 0 then
        (if num_operands instruction_reg = 1 then
           (case ram_read (pc s + 1) s of
              Inl e \<Rightarrow> Inl (e, s)
            | Inr a \<Rightarrow>
                (case alu instruction_reg a None s of
                   Inl es \<Rightarrow> Inl es
                 | Inr s' \<Rightarrow> Inr (s'\<lparr>pc := pc s' + 2\<rparr>)))
         else if num_operands instruction_reg = 2 then
           (case ram_read (pc s + 1) s of
              Inl e \<Rightarrow> Inl (e, s)
            | Inr a \<Rightarrow>
                (case ram_read (pc s + 2) s of
                   Inl e \<Rightarrow> Inl (e, s)
                 | Inr b \<Rightarrow>
                     (case alu instruction_reg a (Some b) s of
                        Inl es \<Rightarrow> Inl es
                      | Inr s' \<Rightarrow> Inr (s'\<lparr>pc := pc s' + 3\<rparr>))))
         else Inr (bad_instruction s))
      else if num_operands instruction_reg = 0 then dispatch instruction_reg 0 s
      else if num_operands instruction_reg = 1 then dispatch instruction_reg 1 s
      else if num_operands instruction_reg = 2 then dispatch instruction_reg 2 s
      else Inr (bad_instruction s))"

text \<open>
  One pass through the body of \<^verbatim>\<open>while True\<close>, from the instruction byte fetched before:
  execute, then \<^verbatim>\<open>if not sets_pc: self.pc += num_operands + 1\<close>, then fetch the next byte.
\<close>

definition loop_body :: "int \<Rightarrow> cpu \<Rightarrow> (int \<times> cpu) raises" where
  "loop_body instruction_reg s =
     (case execute instruction_reg s of
        Inl es \<Rightarrow> Inl es
      | Inr s1 \<Rightarrow>
          (let s2 = (if sets_pc instruction_reg = 0
                     then s1\<lparr>pc := pc s1 + (num_operands instruction_reg + 1)\<rparr>
                     else s1)
           in case ram_read (pc s2) s2 of
                Inl e \<Rightarrow> Inl (e, s2)
              | Inr next_reg \<Rightarrow> Inr (next_reg, s2)))"

text \<open>
  \<^verbatim>\<open>while True\<close> has no exit of its own: \<^verbatim>\<open>run\<close> ends only by an exception. With fuel for
  \<open>n\<close> passes, the result is the exception and the state it leaves, or \<open>None\<close> when the
  loop is still running after \<open>n\<close> passes.
\<close>

fun loop :: "nat \<Rightarrow> int \<Rightarrow> cpu \<Rightarrow> (exn \<times> cpu) option" where
  "loop 0 instruction_reg s = None"
| "loop (Suc n) instruction_reg s =
     (case loop_body instruction_reg s of
        Inl es \<Rightarrow> Some es
      | Inr (next_reg, s') \<Rightarrow> loop n next_reg s')"

definition run :: "nat \<Rightarrow> cpu \<Rightarrow> (exn \<times> cpu) option" where
  "run n s =
     (case ram_read (pc s) s of
        Inl e \<Rightarrow> Some (e, s)
      | Inr instruction_reg \<Rightarrow> loop n instruction_reg s)"

subsection \<open>Well-formed states and the programs used as examples\<close>

text \<open>The sizes \<^verbatim>\<open>__init__\<close> gives to memory and to the register file.\<close>

definition cpu_wf :: "cpu \<Rightarrow> bool" where
  "cpu_wf s \<longleftrightarrow> length (ram s) = 256 \<and> length (reg s) = 8"

text \<open>Every register, respectively every memory cell, holds an unsigned 8-bit value.\<close>

definition regs_ok :: "cpu \<Rightarrow> bool" where
  "regs_ok s \<longleftrightarrow> (\<forall>v \<in> set (reg s). 0 \<le> v \<and> v \<le> 255)"

definition mem_ok :: "cpu \<Rightarrow> bool" where
  "mem_ok s \<longleftrightarrow> (\<forall>v \<in> set (ram s). 0 \<le> v \<and> v \<le> 255)"

text \<open>Program files, as the lines \<^verbatim>\<open>load\<close> reads.\<close>

definition halt_program :: "string list" where
  "halt_program = [''00000001'']"

definition ldi_program :: "string list" where
  "ldi_program = [''10000010 # LDI R0,8'', ''00000000'', ''00001000'']"

definition call_program :: "string list" where
  "call_program = [''01010000 # CALL R0'', ''00000000'']"

text \<open>The byte \<open>208\<close>: three operands, ALU flag clear, sets-PC flag set, no handler.\<close>

definition stuck_program :: "string list" where
  "stuck_program = [''11010000'']"

text \<open>\<^verbatim>\<open>LDI R0,300\<close>: the third line is a binary literal of nine digits.\<close>

definition big_ldi_program :: "string list" where
  "big_ldi_program = [''10000010 # LDI R0,300'', ''00000000'', ''100101100'']"

text \<open>A single line with a binary literal of nine digits.\<close>

definition nine_bit_program :: "string list" where
  "nine_bit_program = [''100000000'']"

section \<open>Properties\<close>

subsection \<open>Auxiliary facts\<close>

lemmas opcode_defs =
  ADD_def AND_op_def CALL_def CMP_def DEC_def DIV_def HLT_def INC_def INT_op_def IRET_def
  JEQ_def JGE_def JGT_def JLE_def JLT_def JMP_def JNE_def LD_def LDI_def MOD_def MUL_def
  NOP_def NOT_op_def OR_op_def POP_def PRA_def PRN_def PUSH_def RET_def SHL_def SHR_def
  ST_def SUB_def XOR_op_def

lemmas mask_defs =
  OPERANDS_OFFSET_def ALU_OFFSET_def PC_OFFSET_def OPERANDS_MASK_def ALU_MASK_def
  PC_MASK_def ID_MASK_def

lemma and_255_mod: "(x::int) AND 255 = x mod 256"
  using take_bit_eq_mask [of 8 x] by (simp add: take_bit_eq_mod mask_eq_exp_minus_1)

lemma and_255_range: "0 \<le> (x::int) AND 255 \<and> x AND 255 \<le> 255"
  by (simp add: and_255_mod)

lemma py_index_less: "py_index n i = Some k \<Longrightarrow> k < n"
  by (auto simp: py_index_def split: if_splits)




lemma init_wf: "cpu_wf init"
  by (simp add: cpu_wf_def init_def set_stack_pointer_def)

lemma init_fields:
  "ram init = replicate 256 0" "reg init = (replicate 8 0)[7 := 247]" "pc init = 0"
  "stdout init = []" "running init = True"
  by (simp_all add: init_def set_stack_pointer_def)

lemma init_simps:
  "length (ram init) = 256" "length (reg init) = 8" "pc init = 0" "stdout init = []"
  "k < 256 \<Longrightarrow> ram init ! k = 0" "k < 7 \<Longrightarrow> reg init ! k = 0" "reg init ! 7 = 247"
  by (simp_all add: init_fields)

text \<open>Reads and writes at an index that is in range.\<close>

lemma ram_read_nth:
  "0 \<le> a \<Longrightarrow> a < int (length (ram s)) \<Longrightarrow> ram_read a s = Inr (ram s ! nat a)"
  by (simp add: ram_read_def py_index_def)

lemma ram_write_nth:
  "0 \<le> a \<Longrightarrow> a < int (length (ram s)) \<Longrightarrow>
   ram_write a v s = Inr (s\<lparr>ram := (ram s)[nat a := v]\<rparr>)"
  by (simp add: ram_write_def py_index_def)

lemma reg_get_nth:
  "0 \<le> i \<Longrightarrow> i < int (length (reg s)) \<Longrightarrow> reg_get i s = Inr (reg s ! nat i)"
  by (simp add: reg_get_def py_index_def)

lemma reg_set_nth:
  "0 \<le> i \<Longrightarrow> i < int (length (reg s)) \<Longrightarrow>
   reg_set i v s = Inr (s\<lparr>reg := (reg s)[nat i := v]\<rparr>)"
  by (simp add: reg_set_def py_index_def)

lemma ram_read_cong: "ram s' = ram s \<Longrightarrow> ram_read a s' = ram_read a s"
  by (simp add: ram_read_def cong: option.case_cong)

lemma operands_1:
  "operands (Suc 0) a s = (case ram_read a s of Inl e \<Rightarrow> Inl e | Inr v \<Rightarrow> Inr [v])"
  by (simp split: sum.split)

lemma operands_2:
  "operands 2 a s =
     (case ram_read a s of
        Inl e \<Rightarrow> Inl e
      | Inr v \<Rightarrow> (case ram_read (a + 1) s of Inl e \<Rightarrow> Inl e | Inr w \<Rightarrow> Inr [v, w]))"
  by (simp add: numeral_2_eq_2 split: sum.split)

text \<open>The example programs, parsed and loaded.\<close>

lemmas int_base2_defs =
  int_base2_def strip_comment_def strip_sign_def strip_prefix_def is_space_def

lemma parsed_lines:
  "int_base2 (strip_comment ''00000001'') = Some 1"
  "int_base2 (strip_comment ''11010000'') = Some 208"
  "int_base2 (strip_comment ''10000010 # LDI R0,8'') = Some 130"
  "int_base2 (strip_comment ''00000000'') = Some 0"
  "int_base2 (strip_comment ''00001000'') = Some 8"
  "int_base2 (strip_comment ''01010000 # CALL R0'') = Some 80"
  "int_base2 (strip_comment ''10000010 # LDI R0,300'') = Some 130"
  "int_base2 (strip_comment ''100101100'') = Some 300"
  by (simp_all add: int_base2_defs)

lemma load_halt_program:
  "load halt_program init = Inr (init\<lparr>ram := (ram init)[0 := 1]\<rparr>)"
  by (simp add: halt_program_def load_def parsed_lines ram_write_nth init_fields)

lemma load_stuck_program:
  "load stuck_program init = Inr (init\<lparr>ram := (ram init)[0 := 208]\<rparr>)"
  by (simp add: stuck_program_def load_def parsed_lines ram_write_nth init_fields)

lemma load_ldi_program:
  "load ldi_program init = Inr (init\<lparr>ram := (ram init)[0 := 130, 1 := 0, 2 := 8]\<rparr>)"
  by (simp add: ldi_program_def load_def parsed_lines ram_write_nth init_fields)

lemma load_call_program:
  "load call_program init = Inr (init\<lparr>ram := (ram init)[0 := 80, 1 := 0]\<rparr>)"
  by (simp add: call_program_def load_def parsed_lines ram_write_nth init_fields)

lemma load_big_ldi_program:
  "load big_ldi_program init = Inr (init\<lparr>ram := (ram init)[0 := 130, 1 := 0, 2 := 300]\<rparr>)"
  by (simp add: big_ldi_program_def load_def parsed_lines ram_write_nth init_fields)

text \<open>Decoded opcodes.\<close>

lemma decode_NOP:
  "is_alu_operation NOP = 0" "num_operands NOP = 0" "dispatch_table NOP = None"
  by (simp_all add: is_alu_operation_def num_operands_def dispatch_table_def opcode_defs
      mask_defs)

lemma decode_208:
  "is_alu_operation 208 = 0" "dispatch_table 208 = None" "num_operands 208 = 3"
  "sets_pc 208 = 1"
  by (simp_all add: is_alu_operation_def num_operands_def sets_pc_def dispatch_table_def
      opcode_defs mask_defs drop_bit_eq_div)

lemma decode_LDI:
  "is_alu_operation LDI = 0" "num_operands LDI = 2" "sets_pc LDI = 0"
  "dispatch_table LDI = Some Ldi"
  by (simp_all add: is_alu_operation_def num_operands_def sets_pc_def dispatch_table_def
      opcode_defs mask_defs drop_bit_eq_div)

lemma decode_CALL:
  "is_alu_operation CALL = 0" "num_operands CALL = 1" "sets_pc CALL = 1"
  "dispatch_table CALL = Some Call"
  by (simp_all add: is_alu_operation_def num_operands_def sets_pc_def dispatch_table_def
      opcode_defs mask_defs drop_bit_eq_div)

lemma decode_DIV: "is_alu_operation DIV = 1" "num_operands DIV = 2" "sets_pc DIV = 0"
  by (simp_all add: is_alu_operation_def num_operands_def sets_pc_def opcode_defs mask_defs
      drop_bit_eq_div)

lemma decode_MOD: "is_alu_operation MOD = 1" "num_operands MOD = 2" "sets_pc MOD = 0"
  by (simp_all add: is_alu_operation_def num_operands_def sets_pc_def opcode_defs mask_defs
      drop_bit_eq_div)

text \<open>Single steps of the loop.\<close>

lemma execute_HLT: "execute HLT s = Inl (SystemExit, s)"
  by (simp add: execute_def is_alu_operation_def num_operands_def dispatch_def dispatch_table_def
      hlt_def opcode_defs mask_defs drop_bit_eq_div)

lemma loop_body_HLT: "loop_body HLT s = Inl (SystemExit, s)"
  by (simp add: loop_body_def execute_HLT)

lemma execute_three_operands:
  assumes "num_operands ir = 3"
  shows "execute ir s = Inr (bad_instruction s)"
  using assms by (simp add: execute_def)

lemma execute_bad_count:
  assumes "is_alu_operation ir = 0" and "num_operands ir \<notin> {0, 1, 2}"
  shows "execute ir s = Inr (bad_instruction s)"
  using assms by (simp add: execute_def)

lemma dispatch_unregistered:
  "dispatch_table ir = None \<Longrightarrow> dispatch ir n s = Inl (KeyError ir, s)"
  by (simp add: dispatch_def)

lemma execute_unregistered:
  assumes "is_alu_operation ir = 0" and "num_operands ir \<in> {0, 1, 2}"
    and "dispatch_table ir = None"
  shows "execute ir s = Inl (KeyError ir, s)"
proof -
  have "execute ir s = dispatch ir (nat (num_operands ir)) s"
    using assms(1,2) by (auto simp: execute_def)
  then show ?thesis using assms(3) by (simp add: dispatch_unregistered)
qed

lemma bad_instruction_fields:
  "ram (bad_instruction s) = ram s" "pc (bad_instruction s) = pc s"
  "reg (bad_instruction s) = reg s"
  by (simp_all add: bad_instruction_def)

text \<open>An instruction with three operands and the sets-PC flag is fetched again and again.\<close>

lemma loop_stuck:
  assumes "num_operands ir = 3" and "sets_pc ir \<noteq> 0" and "ram_read (pc s) s = Inr ir"
  shows "loop n ir s = None"
  using assms(3)
proof (induction n arbitrary: s)
  case 0
  show ?case by simp
next
  case (Suc n)
  have f: "ram_read (pc (bad_instruction s)) (bad_instruction s) = Inr ir"
    using Suc.prems by (simp add: bad_instruction_fields ram_read_cong [of "bad_instruction s" s])
  have "loop_body ir s = Inr (ir, bad_instruction s)"
    using assms(1,2) f by (simp add: loop_body_def execute_three_operands)
  then show ?case using Suc.IH [OF f] by simp
qed

text \<open>The ALU on a zero divisor, and an ALU instruction with two operands that raises.\<close>

lemma alu_DIV_zero:
  assumes "reg_get b s = Inr 0"
  shows "alu DIV a (Some b) s = Inl (ValueError ''Cannot divide by 0'', s)"
  using assms by (simp add: alu_def alu_op_def reg_get_opt_def opcode_defs)

lemma alu_MOD_zero:
  assumes "reg_get a s = Inr x" and "reg_get b s = Inr 0"
  shows "alu MOD a (Some b) s = Inl (ZeroDivisionError, s)"
  using assms by (simp add: alu_def alu_op_def binop_def py_mod_def reg_get_opt_def opcode_defs)

lemma execute_alu_2:
  assumes "is_alu_operation ir = 1" and "num_operands ir = 2"
    and "ram_read (pc s + 1) s = Inr a" and "ram_read (pc s + 2) s = Inr b"
    and "alu ir a (Some b) s = Inl es"
  shows "execute ir s = Inl es" and "loop_body ir s = Inl es"
  using assms by (simp_all add: execute_def loop_body_def)

text \<open>Lists of unsigned 8-bit values under an update.\<close>

lemma byte_update:
  assumes "\<forall>v \<in> set xs. 0 \<le> v \<and> v \<le> (255::int)" and "0 \<le> w" and "w \<le> 255"
  shows "\<forall>v \<in> set (xs[k := w]). 0 \<le> v \<and> v \<le> 255"
  using assms set_update_subset_insert [of xs k w] by auto

lemma byte_update_iff:
  assumes "\<forall>v \<in> set xs. 0 \<le> v \<and> v \<le> (255::int)" and "k < length xs"
  shows "(\<forall>v \<in> set (xs[k := w]). 0 \<le> v \<and> v \<le> 255) \<longleftrightarrow> 0 \<le> w \<and> w \<le> 255"
proof
  assume "\<forall>v \<in> set (xs[k := w]). 0 \<le> v \<and> v \<le> 255"
  moreover have "w \<in> set (xs[k := w])"
    using assms(2) by (rule set_update_memI)
  ultimately show "0 \<le> w \<and> w \<le> 255" by blast
next
  assume "0 \<le> w \<and> w \<le> 255"
  then show "\<forall>v \<in> set (xs[k := w]). 0 \<le> v \<and> v \<le> 255"
    using byte_update [OF assms(1)] by blast
qed

lemma reg_set_Inr:
  "reg_set a v s = Inr s' \<Longrightarrow>
   \<exists>k. py_index (length (reg s)) a = Some k \<and> k < length (reg s) \<and> s' = s\<lparr>reg := (reg s)[k := v]\<rparr>"
  by (auto simp: reg_set_def py_index_less split: option.splits)

lemma unop_Inr:
  "unop f a s = Inr s' \<Longrightarrow>
   \<exists>k. py_index (length (reg s)) a = Some k \<and> k < length (reg s) \<and>
       s' = s\<lparr>reg := (reg s)[k := f (reg s ! k)]\<rparr>"
  by (auto simp: unop_def reg_get_def split: sum.splits option.splits dest!: reg_set_Inr)

lemma binop_Inr:
  "binop f a b s = Inr s' \<Longrightarrow>
   \<exists>k v. py_index (length (reg s)) a = Some k \<and> s' = s\<lparr>reg := (reg s)[k := v]\<rparr>"
  by (auto simp: binop_def split: sum.splits dest!: reg_set_Inr)

lemma alu_op_Inr:
  assumes "alu_op op a b s = Inr s1"
  shows "s1 = s \<or> (\<exists>k v. py_index (length (reg s)) a = Some k \<and> s1 = s\<lparr>reg := (reg s)[k := v]\<rparr>)"
proof -
  have u: "\<And>f. unop f a s = Inr s1 \<Longrightarrow> ?thesis"
    by (drule unop_Inr) blast
  have b: "\<And>f. binop f a b s = Inr s1 \<Longrightarrow> ?thesis"
    by (drule binop_Inr) blast
  show ?thesis
    using assms u b
    by (simp add: alu_op_def split: if_splits sum.splits)
qed

lemma alu_Inr:
  assumes "alu op a b s = Inr s'"
  shows "\<exists>k w. py_index (length (reg s)) a = Some k \<and> k < length (reg s) \<and>
           0 \<le> w \<and> w \<le> 255 \<and> s' = s\<lparr>reg := (reg s)[k := w]\<rparr>"
proof -
  from assms obtain s1 where s1: "alu_op op a b s = Inr s1"
    and m: "unop (\<lambda>x. x AND 255) a s1 = Inr s'"
    by (auto simp: alu_def split: sum.splits)
  from unop_Inr [OF m] obtain k where k: "py_index (length (reg s1)) a = Some k"
    "k < length (reg s1)" "s' = s1\<lparr>reg := (reg s1)[k := reg s1 ! k AND 255]\<rparr>"
    by blast
  from alu_op_Inr [OF s1] show ?thesis
  proof
    assume "s1 = s"
    then show ?thesis using k and_255_range by blast
  next
    assume "\<exists>k v. py_index (length (reg s)) a = Some k \<and> s1 = s\<lparr>reg := (reg s)[k := v]\<rparr>"
    then obtain j v where j: "py_index (length (reg s)) a = Some j"
      "s1 = s\<lparr>reg := (reg s)[j := v]\<rparr>" by blast
    have "j = k" using j k(1) by simp
    then have "s' = s\<lparr>reg := (reg s)[k := reg s1 ! k AND 255]\<rparr>"
      using k(3) j(2) by simp
    moreover have "k < length (reg s)" using k(2) j(2) by simp
    ultimately show ?thesis using j(1) \<open>j = k\<close> and_255_range by blast
  qed
qed

lemma regs_ok_init: "regs_ok init"
  unfolding regs_ok_def
  using byte_update [of "replicate 8 0" 247 7] by (simp add: init_fields)

text \<open>The stack pointer after a decrement and an increment, both masked.\<close>

lemma sp_round_trip:
  assumes "0 \<le> p" and "p \<le> (255::int)"
  shows "((p - 1) mod 256 + 1) mod 256 = p"
proof (cases "p = 0")
  case True
  then show ?thesis by simp
next
  case False
  then have "(p - 1) mod 256 = p - 1" using assms by simp
  then show ?thesis using assms by simp
qed

text \<open>Memory cells under a write, and under the loader.\<close>

lemma ram_write_Inr:
  "ram_write a v s = Inr s' \<Longrightarrow>
   \<exists>k. py_index (length (ram s)) a = Some k \<and> k < length (ram s) \<and> s' = s\<lparr>ram := (ram s)[k := v]\<rparr>"
  by (auto simp: ram_write_def py_index_less split: option.splits)

lemma ram_write_mem_ok:
  assumes "ram_write a v s = Inr s'" and "mem_ok s"
  shows "(mem_ok s' \<longleftrightarrow> 0 \<le> v \<and> v \<le> 255) \<and> length (ram s') = length (ram s)"
proof -
  from ram_write_Inr [OF assms(1)] obtain k where k: "k < length (ram s)"
    "s' = s\<lparr>ram := (ram s)[k := v]\<rparr>" by blast
  show ?thesis
    using assms(2) k byte_update_iff [of "ram s" k v] by (simp add: mem_ok_def)
qed

lemma load_lines_mem_ok:
  assumes "load_lines program address s = Inr s'" and "mem_ok s"
    and "\<forall>line \<in> set program. \<forall>v. int_base2 (strip_comment line) = Some v \<longrightarrow> 0 \<le> v \<and> v \<le> 255"
  shows "mem_ok s' \<and> length (ram s') = length (ram s)"
  using assms
proof (induction program arbitrary: address s)
  case Nil
  then show ?case by simp
next
  case (Cons line rest)
  show ?case
  proof (cases "int_base2 (strip_comment line)")
    case None
    then have "load_lines rest address s = Inr s'" using Cons.prems(1) by simp
    then show ?thesis using Cons.IH Cons.prems(2,3) by simp
  next
    case (Some v)
    then obtain t where w: "ram_write address v s = Inr t"
      and l: "load_lines rest (address + 1) t = Inr s'"
      using Cons.prems(1) by (auto split: sum.splits)
    have "0 \<le> v \<and> v \<le> 255" using Some Cons.prems(3) by simp
    then have t: "mem_ok t" "length (ram t) = length (ram s)"
      using ram_write_mem_ok [OF w Cons.prems(2)] by simp_all
    show ?thesis using Cons.IH [OF l t(1)] Cons.prems(3) t(2) by simp
  qed
qed

lemma mem_ok_init: "mem_ok init"
  by (simp add: mem_ok_def init_fields)











lemma ram_read_error: "ram_read a s = Inl e \<Longrightarrow> e = IndexError"
  by (simp add: ram_read_def split: option.splits)

lemma decode_192:
  "is_alu_operation 192 = 0" "dispatch_table 192 = None" "num_operands 192 = 3"
  "sets_pc 192 = 0"
  by (simp_all add: is_alu_operation_def num_operands_def sets_pc_def dispatch_table_def
      opcode_defs mask_defs drop_bit_eq_div)

subsection \<open>Instruction decoding\<close>



subsection \<open>Memory access\<close>

text \<open>
  Claim C10. Memory is a Python list of 256 cells, so \<^verbatim>\<open>ram_read\<close> and \<^verbatim>\<open>ram_write\<close> accept
  the negative addresses \<open>-256 .. -1\<close> and access the cell at index \<open>256 + a\<close>; exactly the
  addresses below \<open>-256\<close> or above \<open>255\<close> raise \<^verbatim>\<open>IndexError\<close>.
\<close>

theorem ram_negative_index:
  assumes "length (ram s) = 256"
  shows "(- 256 \<le> a \<and> a \<le> - 1 \<longrightarrow>
            ram_read a s = Inr (ram s ! nat (256 + a)) \<and>
            ram_write a v s = Inr (s\<lparr>ram := (ram s)[nat (256 + a) := v]\<rparr>)) \<and>
         (ram_read a s = Inl IndexError \<longleftrightarrow> a < - 256 \<or> 255 < a) \<and>
         (ram_write a v s = Inl IndexError \<longleftrightarrow> a < - 256 \<or> 255 < a)"
  using assms by (auto simp: ram_read_def ram_write_def py_index_def)

theorem ram_negative_index_witness:
  "length (ram init) = 256 \<and>
   ram_read (- 1) init = Inr (ram init ! 255) \<and>
   ram_write (- 1) 5 init = Inr (init\<lparr>ram := (ram init)[255 := 5]\<rparr>) \<and>
   ram_read 256 init = Inl IndexError \<and> ram_write (- 257) 5 init = Inl IndexError"
proof -
  have len: "length (ram init) = 256"
    by (simp add: init_def set_stack_pointer_def)
  show ?thesis
    using len ram_negative_index [OF len, of "- 1" 5] ram_negative_index [OF len, of 256 5]
      ram_negative_index [OF len, of "- 257" 5]
    by simp
qed

subsection \<open>Halting\<close>

text \<open>
  Claim C1, as the code has it. \<^verbatim>\<open>hlt\<close> calls \<^verbatim>\<open>sys.exit()\<close>: when the byte at the program
  counter is \<^verbatim>\<open>HLT\<close>, \<^verbatim>\<open>run\<close> ends in its first pass through the loop by the exception
  \<^verbatim>\<open>SystemExit\<close>, which leaves \<^verbatim>\<open>run\<close> uncaught, and the state is the one \<^verbatim>\<open>run\<close> started
  from: the program counter is not advanced. Without a pass through the loop \<^verbatim>\<open>run\<close> has
  not ended.
\<close>

theorem hlt_raises_SystemExit:
  assumes "ram_read (pc s) s = Inr HLT"
  shows "run (Suc n) s = Some (SystemExit, s) \<and> run 0 s = None"
  using assms by (simp add: run_def loop_body_HLT)

theorem hlt_raises_SystemExit_witness:
  "ram_read (pc (init\<lparr>ram := (ram init)[0 := 1]\<rparr>)) (init\<lparr>ram := (ram init)[0 := 1]\<rparr>) = Inr HLT \<and>
   run (Suc 0) (init\<lparr>ram := (ram init)[0 := 1]\<rparr>) =
     Some (SystemExit, init\<lparr>ram := (ram init)[0 := 1]\<rparr>)"
proof -
  have f: "ram_read (pc (init\<lparr>ram := (ram init)[0 := 1]\<rparr>)) (init\<lparr>ram := (ram init)[0 := 1]\<rparr>)
      = Inr HLT"
    by (simp add: ram_read_nth init_simps HLT_def)
  show ?thesis using f hlt_raises_SystemExit [OF f, of 0] by simp
qed

text \<open>
  Claim C1 as stated fails: for the program file that holds the halt opcode alone, \<^verbatim>\<open>run\<close>
  does not return; it raises \<^verbatim>\<open>SystemExit\<close> with the program counter still \<open>0\<close>, not \<open>1\<close>.
\<close>

theorem halt_program_counterexample:
  "(case load halt_program init of
      Inl _ \<Rightarrow> False
    | Inr s \<Rightarrow> run (Suc 0) s = Some (SystemExit, s) \<and> pc s = 0 \<and> pc s \<noteq> 1)"
  unfolding load_halt_program
  by (simp add: run_def ram_read_nth init_simps loop_body_HLT [unfolded HLT_def])

subsection \<open>Advancing the program counter\<close>

text \<open>
  Claim C2 against the code. Each branch of \<^verbatim>\<open>run\<close> that executes an instruction already
  adds the instruction's length to the program counter, and the statement guarded by
  \<^verbatim>\<open>sets_pc\<close> adds it again. For the program \<^verbatim>\<open>LDI R0,8\<close> (two operands, sets-PC flag
  clear) one pass moves the program counter from \<open>0\<close> to \<open>6\<close>, not to \<open>3\<close>. For the
  program \<^verbatim>\<open>CALL R0\<close> (sets-PC flag set) the handler leaves the program counter at \<open>0\<close>,
  the value of register 0, and the pass ends with the program counter at \<open>2\<close>.
\<close>

theorem pc_advanced_twice:
  "num_operands LDI = 2 \<and> sets_pc LDI = 0 \<and>
   (case load ldi_program init of
      Inl _ \<Rightarrow> False
    | Inr s \<Rightarrow> pc s = 0 \<and> ram_read (pc s) s = Inr LDI \<and>
        (case loop_body LDI s of Inl _ \<Rightarrow> False | Inr (next_reg, s') \<Rightarrow> pc s' = 6)) \<and>
   sets_pc CALL = 1 \<and>
   (case load call_program init of
      Inl _ \<Rightarrow> False
    | Inr s \<Rightarrow> ram_read (pc s) s = Inr CALL \<and>
        (case call 0 s of Inl _ \<Rightarrow> False | Inr s1 \<Rightarrow> pc s1 = 0) \<and>
        (case loop_body CALL s of Inl _ \<Rightarrow> False | Inr (next_reg, s') \<Rightarrow> pc s' = 2))"
proof -
  let ?s = "init\<lparr>ram := (ram init)[0 := 130, 1 := 0, 2 := 8]\<rparr>"
  let ?t = "init\<lparr>ram := (ram init)[0 := 80, 1 := 0]\<rparr>"
  have l1: "ram_read (pc ?s) ?s = Inr LDI"
    by (simp add: ram_read_nth init_simps LDI_def)
  have l2: "execute LDI ?s = Inr (?s\<lparr>reg := (reg init)[0 := 8], pc := 3\<rparr>)"
    by (simp add: execute_def decode_LDI dispatch_def operands_2 ram_read_nth ldi_def
        reg_set_nth init_simps)
  have l3: "case loop_body LDI ?s of Inl _ \<Rightarrow> False | Inr (next_reg, s') \<Rightarrow> pc s' = 6"
    using l2 by (simp add: loop_body_def decode_LDI ram_read_nth init_simps)
  have c1: "ram_read (pc ?t) ?t = Inr CALL"
    by (simp add: ram_read_nth init_simps CALL_def)
  have c2: "call 0 ?t = Inr (?t\<lparr>reg := (reg init)[7 := 246],
      ram := (ram init)[0 := 80, 1 := 0, 246 := 2], pc := 0\<rparr>)"
    by (simp add: call_def Let_def set_stack_pointer_def stack_pointer_def ram_write_nth
        reg_get_nth init_simps)
  have c3: "execute CALL ?t = Inr (?t\<lparr>reg := (reg init)[7 := 246],
      ram := (ram init)[0 := 80, 1 := 0, 246 := 2], pc := 2\<rparr>)"
    using c2
    by (simp add: execute_def decode_CALL dispatch_def operands_1 ram_read_nth init_simps)
  have c4: "case loop_body CALL ?t of Inl _ \<Rightarrow> False | Inr (next_reg, s') \<Rightarrow> pc s' = 2"
    using c3 by (simp add: loop_body_def decode_CALL ram_read_nth init_simps)
  show ?thesis
    unfolding load_ldi_program load_call_program
    using l1 l3 c1 c2 c4 by (simp add: decode_LDI decode_CALL init_simps)
qed

subsection \<open>Opcodes without a handler\<close>

text \<open>
  Claim C3, as the code has it. For an instruction byte with the ALU flag clear and no
  entry in the dispatch table: when the operand count is 0, 1 or 2, the lookup raises
  \<^verbatim>\<open>KeyError\<close> before anything is read or written, the pass through the loop ends with
  that exception and the state unchanged, and so does \<^verbatim>\<open>run\<close> when the byte is at the
  program counter. For any other operand count nothing is looked up and the execute step
  raises nothing: it only prints \<^verbatim>\<open>Bad instruction\<close>. The pass then goes on as for any
  instruction: the program counter moves by the operand count plus one when the sets-PC
  flag is clear, and the next byte is fetched there; the pass ends with \<^verbatim>\<open>IndexError\<close>
  when that address is outside memory, and otherwise hands the fetched byte to the next
  pass.
\<close>

theorem unregistered_opcode_raises_KeyError:
  assumes "is_alu_operation ir = 0" and "dispatch_table ir = None"
  shows "(num_operands ir \<in> {0, 1, 2} \<longrightarrow>
            execute ir s = Inl (KeyError ir, s) \<and> loop_body ir s = Inl (KeyError ir, s) \<and>
            (ram_read (pc s) s = Inr ir \<longrightarrow> run (Suc n) s = Some (KeyError ir, s))) \<and>
         (num_operands ir \<notin> {0, 1, 2} \<longrightarrow>
            execute ir s = Inr (bad_instruction s) \<and>
            loop_body ir s =
              (let s2 = (if sets_pc ir = 0
                         then (bad_instruction s)\<lparr>pc := pc s + (num_operands ir + 1)\<rparr>
                         else bad_instruction s)
               in case ram_read (pc s2) s2 of
                    Inl e \<Rightarrow> Inl (IndexError, s2)
                  | Inr next_reg \<Rightarrow> Inr (next_reg, s2)))"
proof (intro conjI impI)
  assume c: "num_operands ir \<in> {0, 1, 2}"
  show e: "execute ir s = Inl (KeyError ir, s)"
    using assms(1) c assms(2) by (rule execute_unregistered)
  then show b: "loop_body ir s = Inl (KeyError ir, s)"
    by (simp add: loop_body_def)
  show "run (Suc n) s = Some (KeyError ir, s)" if "ram_read (pc s) s = Inr ir"
    using that b by (simp add: run_def)
next
  assume c: "num_operands ir \<notin> {0, 1, 2}"
  with assms(1) show e: "execute ir s = Inr (bad_instruction s)"
    by (rule execute_bad_count)
  show "loop_body ir s =
      (let s2 = (if sets_pc ir = 0
                 then (bad_instruction s)\<lparr>pc := pc s + (num_operands ir + 1)\<rparr>
                 else bad_instruction s)
       in case ram_read (pc s2) s2 of
            Inl e \<Rightarrow> Inl (IndexError, s2)
          | Inr next_reg \<Rightarrow> Inr (next_reg, s2))"
    using e by (auto simp: loop_body_def Let_def bad_instruction_fields
        split: sum.splits dest: ram_read_error)
qed

theorem unregistered_opcode_raises_KeyError_witness:
  "is_alu_operation NOP = 0 \<and> dispatch_table NOP = None \<and> num_operands NOP \<in> {0, 1, 2} \<and>
   ram_read (pc init) init = Inr NOP \<and> run (Suc 0) init = Some (KeyError NOP, init) \<and>
   is_alu_operation 208 = 0 \<and> dispatch_table 208 = None \<and> num_operands 208 \<notin> {0, 1, 2} \<and>
   execute 208 init = Inr (bad_instruction init) \<and>
   loop_body 208 init = Inr (0, bad_instruction init) \<and>
   is_alu_operation 192 = 0 \<and> dispatch_table 192 = None \<and> num_operands 192 \<notin> {0, 1, 2} \<and>
   loop_body 192 (init\<lparr>pc := 252\<rparr>) =
     Inl (IndexError, (bad_instruction (init\<lparr>pc := 252\<rparr>))\<lparr>pc := 256\<rparr>)"
proof -
  have a: "is_alu_operation NOP = 0" "dispatch_table NOP = None"
    and c: "num_operands NOP \<in> {0, 1, 2}"
    by (simp_all add: decode_NOP)
  have a': "is_alu_operation 208 = 0" "dispatch_table 208 = None"
    and c': "num_operands 208 \<notin> {0, 1, 2}"
    by (simp_all add: decode_208)
  have a'': "is_alu_operation 192 = 0" "dispatch_table 192 = None"
    and c'': "num_operands 192 \<notin> {0, 1, 2}"
    by (simp_all add: decode_192)
  have f: "ram_read (pc init) init = Inr NOP"
    by (simp add: ram_read_nth init_simps NOP_def)
  have g: "ram_read (pc (bad_instruction init)) (bad_instruction init) = Inr 0"
    by (simp add: bad_instruction_fields ram_read_nth init_simps)
  have h: "ram_read 256 ((bad_instruction (init\<lparr>pc := 252\<rparr>))\<lparr>pc := 256\<rparr>) = Inl IndexError"
    by (simp add: ram_read_def py_index_def bad_instruction_def init_simps)
  show ?thesis
    using a c a' c' a'' c'' f g h unregistered_opcode_raises_KeyError [OF a, of init 0]
      unregistered_opcode_raises_KeyError [OF a', of init 0]
      unregistered_opcode_raises_KeyError [OF a'', of "init\<lparr>pc := 252\<rparr>" 0]
    by (simp add: decode_208 decode_192 Let_def)
qed

text \<open>
  Claim C3 as stated fails for an operand count of 3. The byte \<open>208\<close> has the ALU flag
  clear and no handler; a pass through the loop prints \<^verbatim>\<open>Bad instruction\<close>, raises nothing,
  leaves the program counter where it is and fetches the same byte again, so \<^verbatim>\<open>run\<close> never
  ends.
\<close>

theorem stuck_program_counterexample:
  "is_alu_operation 208 = 0 \<and> dispatch_table 208 = None \<and>
   (case load stuck_program init of
      Inl _ \<Rightarrow> False
    | Inr s \<Rightarrow> ram_read (pc s) s = Inr 208 \<and> loop_body 208 s = Inr (208, bad_instruction s) \<and>
        (\<forall>n. run n s = None))"
proof -
  let ?s = "init\<lparr>ram := (ram init)[0 := 208]\<rparr>"
  have f: "ram_read (pc ?s) ?s = Inr 208"
    by (simp add: ram_read_nth init_simps)
  have f': "ram_read (pc (bad_instruction ?s)) (bad_instruction ?s) = Inr 208"
    using f by (simp only: bad_instruction_fields ram_read_cong [of "bad_instruction ?s" ?s])
  have b: "loop_body 208 ?s = Inr (208, bad_instruction ?s)"
    using f' by (simp add: loop_body_def execute_three_operands decode_208)
  have h: "run n ?s = None" for n
    using loop_stuck [of 208 ?s n] f by (simp add: run_def decode_208)
  show ?thesis unfolding load_stuck_program using f b h by (simp add: decode_208)
qed

subsection \<open>Division by zero\<close>

text \<open>
  Claim C4. For register indices \<open>a\<close> and \<open>b\<close> (0 to 7) with register \<open>b\<close> holding 0, the
  ALU operations \<^verbatim>\<open>DIV\<close> and \<^verbatim>\<open>MOD\<close> raise the division-by-zero fault of the code
  (\<^verbatim>\<open>ValueError("Cannot divide by 0")\<close> for \<^verbatim>\<open>DIV\<close>, Python's \<^verbatim>\<open>ZeroDivisionError\<close> for
  \<^verbatim>\<open>MOD\<close>) and leave the whole state, the destination register included, unchanged. The
  fault propagates: a pass through the loop that executes such an instruction ends with
  the same exception and the same unchanged state.
\<close>

theorem division_by_zero:
  assumes "length (reg s) = 8" and "0 \<le> a" and "a < 8" and "0 \<le> b" and "b < 8"
    and "reg s ! nat b = 0"
  shows "alu DIV a (Some b) s = Inl (ValueError ''Cannot divide by 0'', s) \<and>
         alu MOD a (Some b) s = Inl (ZeroDivisionError, s) \<and>
         (ram_read (pc s + 1) s = Inr a \<and> ram_read (pc s + 2) s = Inr b \<longrightarrow>
            loop_body DIV s = Inl (ValueError ''Cannot divide by 0'', s) \<and>
            loop_body MOD s = Inl (ZeroDivisionError, s))"
proof -
  have ra: "reg_get a s = Inr (reg s ! nat a)"
    using assms by (simp add: reg_get_nth)
  have rb: "reg_get b s = Inr 0"
    using assms by (simp add: reg_get_nth)
  have d: "alu DIV a (Some b) s = Inl (ValueError ''Cannot divide by 0'', s)"
    using rb by (rule alu_DIV_zero)
  have m: "alu MOD a (Some b) s = Inl (ZeroDivisionError, s)"
    using ra rb by (rule alu_MOD_zero)
  show ?thesis
    using d m execute_alu_2(2) [OF decode_DIV(1,2) _ _ d]
      execute_alu_2(2) [OF decode_MOD(1,2) _ _ m]
    by blast
qed

theorem division_by_zero_witness:
  "length (reg (init\<lparr>ram := (ram init)[1 := 2, 2 := 1]\<rparr>)) = 8 \<and>
   reg (init\<lparr>ram := (ram init)[1 := 2, 2 := 1]\<rparr>) ! nat 1 = 0 \<and>
   ram_read (pc (init\<lparr>ram := (ram init)[1 := 2, 2 := 1]\<rparr>) + 1)
     (init\<lparr>ram := (ram init)[1 := 2, 2 := 1]\<rparr>) = Inr 2 \<and>
   ram_read (pc (init\<lparr>ram := (ram init)[1 := 2, 2 := 1]\<rparr>) + 2)
     (init\<lparr>ram := (ram init)[1 := 2, 2 := 1]\<rparr>) = Inr 1 \<and>
   alu DIV 2 (Some 1) (init\<lparr>ram := (ram init)[1 := 2, 2 := 1]\<rparr>) =
     Inl (ValueError ''Cannot divide by 0'', init\<lparr>ram := (ram init)[1 := 2, 2 := 1]\<rparr>) \<and>
   alu MOD 2 (Some 1) (init\<lparr>ram := (ram init)[1 := 2, 2 := 1]\<rparr>) =
     Inl (ZeroDivisionError, init\<lparr>ram := (ram init)[1 := 2, 2 := 1]\<rparr>) \<and>
   loop_body DIV (init\<lparr>ram := (ram init)[1 := 2, 2 := 1]\<rparr>) =
     Inl (ValueError ''Cannot divide by 0'', init\<lparr>ram := (ram init)[1 := 2, 2 := 1]\<rparr>) \<and>
   loop_body MOD (init\<lparr>ram := (ram init)[1 := 2, 2 := 1]\<rparr>) =
     Inl (ZeroDivisionError, init\<lparr>ram := (ram init)[1 := 2, 2 := 1]\<rparr>)"
proof -
  let ?s = "init\<lparr>ram := (ram init)[1 := 2, 2 := 1]\<rparr>"
  have h: "length (reg ?s) = 8" "(0::int) \<le> 2" "(2::int) < 8" "(0::int) \<le> 1" "(1::int) < 8"
    "reg ?s ! nat 1 = 0"
    by (simp_all add: init_simps)
  have f: "ram_read (pc ?s + 1) ?s = Inr 2" "ram_read (pc ?s + 2) ?s = Inr 1"
    by (simp_all add: ram_read_nth init_simps)
  show ?thesis using h(1,6) f division_by_zero [OF h] by simp
qed

subsection \<open>The range of register values\<close>

text \<open>
  Claim C5, as the code has it. \<^verbatim>\<open>alu\<close> ends with \<^verbatim>\<open>self.reg[a] &= 0xff\<close>: after every ALU
  operation that returns, the destination register holds a value between 0 and 255, and
  registers that were all between 0 and 255 before the operation still are.
  \<^verbatim>\<open>ldi\<close> stores its operand as it is: afterwards the destination register holds exactly
  the operand, and registers that were all between 0 and 255 still are exactly when the
  operand is.
\<close>

theorem register_range:
  "(alu op a b s = Inr s1 \<longrightarrow>
      (\<exists>x. reg_get a s1 = Inr x \<and> 0 \<le> x \<and> x \<le> 255) \<and> (regs_ok s \<longrightarrow> regs_ok s1)) \<and>
   (ldi c v t = Inr t1 \<longrightarrow>
      reg_get c t1 = Inr v \<and> (regs_ok t \<longrightarrow> (regs_ok t1 \<longleftrightarrow> 0 \<le> v \<and> v \<le> 255)))"
proof (intro conjI impI)
  assume "alu op a b s = Inr s1"
  from alu_Inr [OF this] obtain k w where k: "py_index (length (reg s)) a = Some k"
    "k < length (reg s)" "0 \<le> w" "w \<le> 255" "s1 = s\<lparr>reg := (reg s)[k := w]\<rparr>"
    by blast
  show "\<exists>x. reg_get a s1 = Inr x \<and> 0 \<le> x \<and> x \<le> 255"
    using k by (simp add: reg_get_def)
  show "regs_ok s1" if "regs_ok s"
    using that k byte_update [of "reg s" w k] by (simp add: regs_ok_def)
next
  assume "ldi c v t = Inr t1"
  then have "reg_set c v t = Inr t1"
    by (simp add: ldi_def split: sum.splits)
  from reg_set_Inr [OF this] obtain k where k: "py_index (length (reg t)) c = Some k"
    "k < length (reg t)" "t1 = t\<lparr>reg := (reg t)[k := v]\<rparr>"
    by blast
  show "reg_get c t1 = Inr v"
    using k by (simp add: reg_get_def)
  show "regs_ok t1 \<longleftrightarrow> 0 \<le> v \<and> v \<le> 255" if "regs_ok t"
    using that k byte_update_iff [of "reg t" k v] by (simp add: regs_ok_def)
qed

theorem register_range_witness:
  "alu ADD 0 (Some 7) init = Inr (init\<lparr>reg := (reg init)[0 := 247]\<rparr>) \<and>
   ldi 1 8 init = Inr (init\<lparr>reg := (reg init)[1 := 8]\<rparr>) \<and> regs_ok init \<and>
   regs_ok (init\<lparr>reg := (reg init)[0 := 247]\<rparr>) \<and> regs_ok (init\<lparr>reg := (reg init)[1 := 8]\<rparr>)"
proof -
  have a: "alu ADD 0 (Some 7) init = Inr (init\<lparr>reg := (reg init)[0 := 247]\<rparr>)"
    by (simp add: alu_def alu_op_def binop_def unop_def reg_get_opt_def reg_get_nth reg_set_nth
        init_simps opcode_defs)
  have l: "ldi 1 8 init = Inr (init\<lparr>reg := (reg init)[1 := 8]\<rparr>)"
    by (simp add: ldi_def reg_set_nth init_simps)
  show ?thesis
    using a l regs_ok_init
      register_range [of ADD 0 "Some 7" init "init\<lparr>reg := (reg init)[0 := 247]\<rparr>" 1 8 init
        "init\<lparr>reg := (reg init)[1 := 8]\<rparr>"]
    by simp
qed

text \<open>
  Claim C5 as stated fails: not every write to a register is masked. The program file
  \<^verbatim>\<open>LDI R0,300\<close> is loaded as it is, and one pass through the loop leaves 300 in
  register 0.
\<close>

theorem ldi_unmasked_counterexample:
  "(case load big_ldi_program init of
      Inl _ \<Rightarrow> False
    | Inr s \<Rightarrow> regs_ok s \<and> ram_read (pc s) s = Inr LDI \<and>
        (case loop_body LDI s of
           Inl _ \<Rightarrow> False
         | Inr (next_reg, s') \<Rightarrow> reg_get 0 s' = Inr 300 \<and> \<not> regs_ok s'))"
proof -
  let ?s = "init\<lparr>ram := (ram init)[0 := 130, 1 := 0, 2 := 300]\<rparr>"
  have r: "regs_ok ?s"
    using regs_ok_init by (simp add: regs_ok_def)
  have f: "ram_read (pc ?s) ?s = Inr LDI"
    by (simp add: ram_read_nth init_simps LDI_def)
  have e: "execute LDI ?s = Inr (?s\<lparr>reg := (reg init)[0 := 300], pc := 3\<rparr>)"
    by (simp add: execute_def decode_LDI dispatch_def operands_2 ram_read_nth ldi_def
        reg_set_nth init_simps)
  have b: "loop_body LDI ?s = Inr (0, ?s\<lparr>reg := (reg init)[0 := 300], pc := 6\<rparr>)"
    using e by (simp add: loop_body_def decode_LDI ram_read_nth init_simps)
  have "(300::int) \<in> set ((reg init)[0 := 300])"
    by (rule set_update_memI) (simp add: init_simps)
  then have n: "\<not> regs_ok (?s\<lparr>reg := (reg init)[0 := 300], pc := 6\<rparr>)"
    by (fastforce simp: regs_ok_def)
  show ?thesis
    unfolding load_big_ldi_program using r f b n by (simp add: reg_get_nth init_simps)
qed

subsection \<open>The stack\<close>

text \<open>
  Claim C7, as the code has it. In a state with 256 memory cells, 8 registers and a stack
  pointer (register 7) between 0 and 255, for register indices \<open>a\<close> (0 to 7) and \<open>b\<close>
  (0 to 6): \<^verbatim>\<open>push(a)\<close> followed by \<^verbatim>\<open>pop(b)\<close> returns, register \<open>b\<close> then holds the value
  that \<^verbatim>\<open>push\<close> wrote (register \<open>a\<close> as read after the decrement of the stack pointer, so
  for \<open>a = 7\<close> the decremented stack pointer), and the stack pointer has its value from
  before the push.
\<close>

theorem push_pop:
  assumes "cpu_wf s" and "0 \<le> stack_pointer s" and "stack_pointer s \<le> 255"
    and "0 \<le> a" and "a < 8" and "0 \<le> b" and "b < 7"
  shows "\<exists>s1 s2. push a s = Inr s1 \<and> pop b s1 = Inr s2 \<and>
           reg s2 ! nat b = (if a = 7 then (stack_pointer s - 1) mod 256 else reg s ! nat a) \<and>
           stack_pointer s2 = stack_pointer s"
proof -
  let ?p = "(stack_pointer s - 1) mod 256"
  let ?v = "if a = 7 then ?p else reg s ! nat a"
  let ?s1 = "s\<lparr>reg := (reg s)[7 := ?p], ram := (ram s)[nat ?p := ?v]\<rparr>"
  let ?s2 = "?s1\<lparr>reg := (reg s)[7 := ?p, nat b := ?v, 7 := stack_pointer s]\<rparr>"
  have len: "length (ram s) = 256" "length (reg s) = 8"
    using assms(1) by (simp_all add: cpu_wf_def)
  have p: "0 \<le> ?p" "?p < 256" by simp_all
  have na: "nat a < 8" "nat b < 7" using assms by simp_all
  have a7: "a = 7 \<longleftrightarrow> nat a = 7" using assms(4) by auto
  have 1: "push a s = Inr ?s1"
    using len p na a7 assms(4,5)
    by (simp add: push_def Let_def set_stack_pointer_def stack_pointer_def and_255_mod
        reg_get_nth ram_write_nth)
  have 2: "pop b ?s1 = Inr ?s2"
    using len p na assms(2,3,6,7) sp_round_trip [OF assms(2,3)]
    by (simp add: pop_def set_stack_pointer_def stack_pointer_def and_255_mod
        ram_read_nth reg_set_nth)
  have 3: "reg ?s2 ! nat b = ?v" "stack_pointer ?s2 = stack_pointer s"
    using len na by (simp_all add: stack_pointer_def)
  show ?thesis using 1 2 3 by blast
qed

theorem push_pop_witness:
  "cpu_wf init \<and> stack_pointer init = 247 \<and>
   (\<exists>s1 s2. push 7 init = Inr s1 \<and> pop 0 s1 = Inr s2 \<and> reg s2 ! nat 0 = 246 \<and>
      stack_pointer s2 = 247)"
proof -
  have h: "cpu_wf init" "0 \<le> stack_pointer init" "stack_pointer init \<le> 255"
    "(0::int) \<le> 7" "(7::int) < 8" "(0::int) \<le> 0" "(0::int) < 7"
    by (simp_all add: init_wf stack_pointer_def init_simps)
  have v: "stack_pointer init = 247"
    by (simp add: stack_pointer_def init_simps)
  show ?thesis using h(1) v push_pop [OF h] by simp
qed

text \<open>
  Claim C7 as stated fails for \<open>b = 7\<close>: \<^verbatim>\<open>pop(7)\<close> stores the popped value in the stack
  pointer itself and then increments it. On a new CPU, \<^verbatim>\<open>push(0)\<close> writes 0 and \<^verbatim>\<open>pop(7)\<close>
  leaves 1 in register 7, which is neither the pushed value nor the stack pointer 247 from
  before the push. It also fails in a state whose register 7 is not an 8-bit value: after
  \<^verbatim>\<open>ldi(7, 300)\<close>, \<^verbatim>\<open>push(0)\<close> and \<^verbatim>\<open>pop(1)\<close> leave the stack pointer at 44, not at 300.
\<close>

theorem pop_stack_pointer_counterexample:
  "(case push 0 init of
      Inl _ \<Rightarrow> False
    | Inr s1 \<Rightarrow>
        (case pop 7 s1 of
           Inl _ \<Rightarrow> False
         | Inr s2 \<Rightarrow> reg init ! 0 = 0 \<and> ram_read (stack_pointer s1) s1 = Inr 0 \<and>
             reg s2 ! 7 = 1 \<and> stack_pointer init = 247 \<and> stack_pointer s2 = 1)) \<and>
   (case ldi 7 300 init of
      Inl _ \<Rightarrow> False
    | Inr t \<Rightarrow>
        (case push 0 t of
           Inl _ \<Rightarrow> False
         | Inr t1 \<Rightarrow>
             (case pop 1 t1 of
                Inl _ \<Rightarrow> False
              | Inr t2 \<Rightarrow> stack_pointer t = 300 \<and> stack_pointer t2 = 44)))"
proof -
  let ?s1 = "init\<lparr>reg := (reg init)[7 := 246], ram := (ram init)[246 := 0]\<rparr>"
  let ?s2 = "?s1\<lparr>reg := (reg init)[7 := 1]\<rparr>"
  let ?t = "init\<lparr>reg := (reg init)[7 := 300]\<rparr>"
  let ?t1 = "init\<lparr>reg := (reg init)[7 := 43], ram := (ram init)[43 := 0]\<rparr>"
  let ?t2 = "?t1\<lparr>reg := (reg init)[7 := 44, 1 := 0]\<rparr>"
  have 1: "push 0 init = Inr ?s1"
    by (simp add: push_def Let_def set_stack_pointer_def stack_pointer_def reg_get_nth
        ram_write_nth init_simps)
  have 2: "pop 7 ?s1 = Inr ?s2"
    by (simp add: pop_def set_stack_pointer_def stack_pointer_def ram_read_nth reg_set_nth
        init_simps)
  have 3: "ram_read (stack_pointer ?s1) ?s1 = Inr 0"
    by (simp add: stack_pointer_def ram_read_nth init_simps)
  have 4: "ldi 7 300 init = Inr ?t"
    by (simp add: ldi_def reg_set_nth init_simps)
  have 5: "push 0 ?t = Inr ?t1"
    by (simp add: push_def Let_def set_stack_pointer_def stack_pointer_def and_255_mod
        reg_get_nth ram_write_nth init_simps)
  have 6: "pop 1 ?t1 = Inr ?t2"
    by (simp add: pop_def set_stack_pointer_def stack_pointer_def and_255_mod ram_read_nth
        reg_set_nth init_simps list_update_swap)
  show ?thesis
    using 1 2 3 4 5 6 by (simp add: stack_pointer_def init_simps)
qed

text \<open>
  Claim C8, as the code has it. In a state with 256 memory cells, 8 registers and a stack
  pointer between 0 and 255, for a register index \<open>r\<close> (0 to 7): \<^verbatim>\<open>call(r)\<close> returns with
  the program counter at the value of register \<open>r\<close>, and \<^verbatim>\<open>ret()\<close> after it returns with
  the program counter at \<open>p + 2\<close>, where \<open>p\<close> is the program counter before the call, and
  with the stack pointer at its value from before the call.
\<close>

theorem call_ret:
  assumes "cpu_wf s" and "0 \<le> stack_pointer s" and "stack_pointer s \<le> 255"
    and "0 \<le> r" and "r < 8"
  shows "\<exists>s1 s2. call r s = Inr s1 \<and> ret s1 = Inr s2 \<and>
           pc s1 = (if r = 7 then (stack_pointer s - 1) mod 256 else reg s ! nat r) \<and>
           pc s2 = pc s + 2 \<and> stack_pointer s2 = stack_pointer s"
proof -
  let ?p = "(stack_pointer s - 1) mod 256"
  let ?v = "if r = 7 then ?p else reg s ! nat r"
  let ?s1 = "s\<lparr>reg := (reg s)[7 := ?p], ram := (ram s)[nat ?p := pc s + 2], pc := ?v\<rparr>"
  let ?s2 = "?s1\<lparr>pc := pc s + 2, reg := (reg s)[7 := stack_pointer s]\<rparr>"
  have len: "length (ram s) = 256" "length (reg s) = 8"
    using assms(1) by (simp_all add: cpu_wf_def)
  have p: "0 \<le> ?p" "?p < 256" by simp_all
  have nr: "nat r < 8" using assms by simp
  have r7: "r = 7 \<longleftrightarrow> nat r = 7" using assms(4) by auto
  have 1: "call r s = Inr ?s1"
    using len p nr r7 assms(4,5)
    by (simp add: call_def Let_def set_stack_pointer_def stack_pointer_def and_255_mod
        reg_get_nth ram_write_nth)
  have 2: "ret ?s1 = Inr ?s2"
    using len p sp_round_trip [OF assms(2,3)]
    by (simp add: ret_def Let_def set_stack_pointer_def stack_pointer_def and_255_mod
        ram_read_nth)
  have 3: "pc ?s1 = ?v" "pc ?s2 = pc s + 2" "stack_pointer ?s2 = stack_pointer s"
    using len by (simp_all add: stack_pointer_def)
  show ?thesis using 1 2 3 by blast
qed

theorem call_ret_witness:
  "cpu_wf init \<and> stack_pointer init = 247 \<and>
   (\<exists>s1 s2. call 0 init = Inr s1 \<and> ret s1 = Inr s2 \<and> pc s1 = 0 \<and> pc s2 = 2 \<and>
      stack_pointer s2 = 247)"
proof -
  have h: "cpu_wf init" "0 \<le> stack_pointer init" "stack_pointer init \<le> 255"
    "(0::int) \<le> 0" "(0::int) < 8"
    by (simp_all add: init_wf stack_pointer_def init_simps)
  have v: "stack_pointer init = 247" "pc init = 0" "reg init ! nat 0 = 0"
    by (simp_all add: stack_pointer_def init_simps)
  show ?thesis using h(1) v(1) call_ret [OF h] by (simp add: v init_simps)
qed

text \<open>
  Claim C8 as stated fails in a state whose register 7 is not an 8-bit value: after
  \<^verbatim>\<open>ldi(7, 300)\<close> on a new CPU, \<^verbatim>\<open>call(0)\<close> and \<^verbatim>\<open>ret()\<close> bring the program counter to
  \<open>p + 2\<close> but leave the stack pointer at 44, not at 300.
\<close>

theorem wide_stack_pointer_counterexample:
  "(case ldi 7 300 init of
      Inl _ \<Rightarrow> False
    | Inr s \<Rightarrow>
        (case call 0 s of
           Inl _ \<Rightarrow> False
         | Inr s1 \<Rightarrow>
             (case ret s1 of
                Inl _ \<Rightarrow> False
              | Inr s2 \<Rightarrow> stack_pointer s = 300 \<and> pc s2 = pc s + 2 \<and> stack_pointer s2 = 44)))"
proof -
  let ?s = "init\<lparr>reg := (reg init)[7 := 300]\<rparr>"
  let ?s1 = "?s\<lparr>reg := (reg init)[7 := 43], ram := (ram init)[43 := 2], pc := 0\<rparr>"
  let ?s2 = "?s1\<lparr>pc := 2, reg := (reg init)[7 := 44]\<rparr>"
  have 0: "ldi 7 300 init = Inr ?s"
    by (simp add: ldi_def reg_set_nth init_simps)
  have 1: "call 0 ?s = Inr ?s1"
    by (simp add: call_def Let_def set_stack_pointer_def stack_pointer_def and_255_mod
        reg_get_nth ram_write_nth init_simps)
  have 2: "ret ?s1 = Inr ?s2"
    by (simp add: ret_def Let_def set_stack_pointer_def stack_pointer_def and_255_mod
        ram_read_nth init_simps)
  show ?thesis using 0 1 2 by (simp add: stack_pointer_def init_simps)
qed


subsection \<open>The range of memory cells\<close>

text \<open>
  Claim C9, as the code has it. Memory keeps its length, and no write to it is masked. From
  a state whose cells are all between 0 and 255: after \<^verbatim>\<open>push(a)\<close> the cells are all between
  0 and 255 exactly when the register value pushed is; after \<^verbatim>\<open>call(r)\<close> exactly when the
  return address PC + 2 is; and after \<^verbatim>\<open>load\<close> when every line that parses as a binary
  number gives a value between 0 and 255.
\<close>

theorem memory_writes_unmasked:
  assumes "mem_ok s"
  shows "(push a s = Inr s1 \<longrightarrow>
            length (ram s1) = length (ram s) \<and>
            (\<exists>v. reg_get a (set_stack_pointer (stack_pointer s - 1) s) = Inr v \<and>
               (mem_ok s1 \<longleftrightarrow> 0 \<le> v \<and> v \<le> 255))) \<and>
         (call r s = Inr s2 \<longrightarrow>
            length (ram s2) = length (ram s) \<and> (mem_ok s2 \<longleftrightarrow> 0 \<le> pc s + 2 \<and> pc s + 2 \<le> 255)) \<and>
         (load program s = Inr s3 \<longrightarrow>
            (\<forall>line \<in> set program. \<forall>v. int_base2 (strip_comment line) = Some v \<longrightarrow>
               0 \<le> v \<and> v \<le> 255) \<longrightarrow>
            length (ram s3) = length (ram s) \<and> mem_ok s3)"
proof (intro conjI impI)
  let ?t = "set_stack_pointer (stack_pointer s - 1) s"
  have t: "mem_ok ?t" "length (ram ?t) = length (ram s)" "pc ?t = pc s"
    using assms by (simp_all add: mem_ok_def set_stack_pointer_def)
  {
    assume "push a s = Inr s1"
    then obtain v where v: "reg_get a ?t = Inr v" and w: "ram_write (stack_pointer ?t) v ?t = Inr s1"
      by (auto simp: push_def Let_def split: sum.splits)
    show "length (ram s1) = length (ram s)"
      using ram_write_mem_ok [OF w t(1)] t(2) by simp
    show "\<exists>v. reg_get a ?t = Inr v \<and> (mem_ok s1 \<longleftrightarrow> 0 \<le> v \<and> v \<le> 255)"
      using v ram_write_mem_ok [OF w t(1)] by blast
  }
  {
    assume "call r s = Inr s2"
    then obtain u v where w: "ram_write (stack_pointer ?t) (pc ?t + 2) ?t = Inr u"
      and u: "s2 = u\<lparr>pc := v\<rparr>"
      by (auto simp: call_def Let_def split: sum.splits)
    have "mem_ok s2 = mem_ok u" "length (ram s2) = length (ram u)"
      using u by (simp_all add: mem_ok_def)
    then show "length (ram s2) = length (ram s)"
      and "mem_ok s2 \<longleftrightarrow> 0 \<le> pc s + 2 \<and> pc s + 2 \<le> 255"
      using ram_write_mem_ok [OF w t(1)] t(2,3) by simp_all
  }
  {
    assume "load program s = Inr s3"
      and "\<forall>line \<in> set program. \<forall>v. int_base2 (strip_comment line) = Some v \<longrightarrow>
               0 \<le> v \<and> v \<le> 255"
    then show "length (ram s3) = length (ram s)" and "mem_ok s3"
      using load_lines_mem_ok [of program 0 s s3] assms by (simp_all add: load_def)
  }
qed

theorem memory_writes_unmasked_witness:
  "mem_ok init \<and>
   push 0 init = Inr (init\<lparr>reg := (reg init)[7 := 246], ram := (ram init)[246 := 0]\<rparr>) \<and>
   mem_ok (init\<lparr>reg := (reg init)[7 := 246], ram := (ram init)[246 := 0]\<rparr>) \<and>
   call 0 init = Inr (init\<lparr>reg := (reg init)[7 := 246], ram := (ram init)[246 := 2], pc := 0\<rparr>) \<and>
   mem_ok (init\<lparr>reg := (reg init)[7 := 246], ram := (ram init)[246 := 2], pc := 0\<rparr>) \<and>
   load halt_program init = Inr (init\<lparr>ram := (ram init)[0 := 1]\<rparr>) \<and>
   mem_ok (init\<lparr>ram := (ram init)[0 := 1]\<rparr>)"
proof -
  let ?s1 = "init\<lparr>reg := (reg init)[7 := 246], ram := (ram init)[246 := 0]\<rparr>"
  let ?s2 = "init\<lparr>reg := (reg init)[7 := 246], ram := (ram init)[246 := 2], pc := 0\<rparr>"
  let ?s3 = "init\<lparr>ram := (ram init)[0 := 1]\<rparr>"
  have 1: "push 0 init = Inr ?s1"
    by (simp add: push_def Let_def set_stack_pointer_def stack_pointer_def reg_get_nth
        ram_write_nth init_simps)
  have 2: "call 0 init = Inr ?s2"
    by (simp add: call_def Let_def set_stack_pointer_def stack_pointer_def reg_get_nth
        ram_write_nth init_simps)
  have v: "reg_get 0 (set_stack_pointer (stack_pointer init - 1) init) = Inr 0"
    by (simp add: set_stack_pointer_def reg_get_nth init_simps)
  have p: "\<forall>line \<in> set halt_program. \<forall>v. int_base2 (strip_comment line) = Some v \<longrightarrow>
      0 \<le> v \<and> v \<le> 255"
    by (simp add: halt_program_def parsed_lines)
  show ?thesis
    using 1 2 v p load_halt_program mem_ok_init
      memory_writes_unmasked [OF mem_ok_init, where a = 0 and ?s1.0 = ?s1 and r = 0
        and ?s2.0 = ?s2 and program = halt_program and ?s3.0 = ?s3]
    by (simp add: init_simps)
qed

text \<open>
  Claim C9 as stated fails for the loader: the line \<^verbatim>\<open>100000000\<close> is stored as 256 in
  cell 0.
\<close>

theorem nine_bit_line_counterexample:
  "mem_ok init \<and>
   (case load nine_bit_program init of
      Inl _ \<Rightarrow> False
    | Inr s \<Rightarrow> ram_read 0 s = Inr 256 \<and> \<not> mem_ok s)"
proof -
  let ?s = "init\<lparr>ram := (ram init)[0 := 256]\<rparr>"
  have p: "int_base2 (strip_comment ''100000000'') = Some 256"
    by (simp add: int_base2_defs)
  have l: "load nine_bit_program init = Inr ?s"
    by (simp add: nine_bit_program_def load_def p ram_write_nth init_fields)
  have "(256::int) \<in> set ((ram init)[0 := 256])"
    by (rule set_update_memI) (simp add: init_simps)
  then have n: "\<not> mem_ok ?s"
    by (fastforce simp: mem_ok_def)
  have f: "ram_read 0 ?s = Inr 256"
    by (simp add: ram_read_nth init_simps)
  show ?thesis unfolding l using mem_ok_init n f by simp
qed


end
